theory Spec2Isabelle
  imports Main
begin

section \<open>Strings\<close>

text \<open>
  Shortcodes, URLs and header values are JavaScript strings. They are modelled as
  \<open>string\<close>, a list of 8-bit characters, each read as the code unit of the same number
  (U+0000 to U+00FF); strings with code units beyond U+00FF are not modelled. On these
  code units \<^verbatim>\<open>String.prototype.toLowerCase\<close> maps \<open>A\<close>..\<open>Z\<close> (65..90) and the capital
  letters U+00C0..U+00DE, the multiplication sign U+00D7 apart, to the code unit 32
  higher, and leaves every other one alone. \<^verbatim>\<open>String.prototype.trim\<close> strips white space
  and line terminators from both ends: tab, line feed, vertical tab, form feed, carriage
  return (9..13), space (32) and the no-break space U+00A0 (160).
\<close>

definition toLowerChar :: "char \<Rightarrow> char" where
  "toLowerChar c =
     (let n = (of_char c :: nat) in
        if (65 \<le> n \<and> n \<le> 90) \<or> (192 \<le> n \<and> n \<le> 222 \<and> n \<noteq> 215) then char_of (n + 32)
        else c)"

definition toLowerCase :: "string \<Rightarrow> string" where
  "toLowerCase s = map toLowerChar s"

definition isWhiteSpace :: "char \<Rightarrow> bool" where
  "isWhiteSpace c = (let n = (of_char c :: nat) in (9 \<le> n \<and> n \<le> 13) \<or> n = 32 \<or> n = 160)"

definition trim :: "string \<Rightarrow> string" where
  "trim s = rev (dropWhile isWhiteSpace (rev (dropWhile isWhiteSpace s)))"

text \<open>\<^verbatim>\<open>s.charAt(i)\<close>: the one-character string at index \<open>i\<close>, the empty string out of range.\<close>

definition charAt :: "string \<Rightarrow> nat \<Rightarrow> string" where
  "charAt s i = (if i < length s then [s ! i] else [])"

section \<open>utils.js\<close>

text \<open>
  \<^verbatim>\<open>normalizeShortcode(code)\<close>: \<open>None\<close> is the source's \<^verbatim>\<open>null\<close>. The argument is
  an absent value or a string; the empty string is falsy. The regular expression
  \<^verbatim>\<open>/^[A-Za-z0-9_-]{3,30}$/\<close> is a test of the length and of every character.
\<close>

definition shortcodeChar :: "char \<Rightarrow> bool" where
  "shortcodeChar c =
     (let n = (of_char c :: nat) in
        (65 \<le> n \<and> n \<le> 90) \<or> (97 \<le> n \<and> n \<le> 122) \<or> (48 \<le> n \<and> n \<le> 57)
        \<or> n = 95 \<or> n = 45)"

definition normalizeShortcode :: "string option \<Rightarrow> string option" where
  "normalizeShortcode code =
     (case code of
        None \<Rightarrow> None
      | Some s \<Rightarrow>
          if s = [] then None
          else (let cleaned = trim s in
                if 3 \<le> length cleaned \<and> length cleaned \<le> 30 \<and> list_all shortcodeChar cleaned
                then Some cleaned else None))"

definition chars :: string where
  "chars = ''ABCDEFGHIJKLMNOPQRSTUVWXYZabcdefghijklmnopqrstuvwxyz0123456789''"

text \<open>
  \<^verbatim>\<open>generateShortcode(length)\<close>. The random source is a function \<open>rnd\<close>: \<open>rnd k\<close> is the
  value of \<^verbatim>\<open>Math.floor(Math.random() * chars.length)\<close> at the \<open>k\<close>-th draw. The loop runs
  \<open>length\<close> times; its first argument counts the iterations left, \<open>pos\<close> is the number
  of draws made so far. The result is the string and the new number of draws.
\<close>

fun generateLoop :: "(nat \<Rightarrow> nat) \<Rightarrow> nat \<Rightarrow> nat \<Rightarrow> string \<Rightarrow> string \<times> nat" where
  "generateLoop rnd 0 pos out = (out, pos)"
| "generateLoop rnd (Suc n) pos out = generateLoop rnd n (Suc pos) (out @ charAt chars (rnd pos))"

definition generateShortcode :: "(nat \<Rightarrow> nat) \<Rightarrow> nat \<Rightarrow> nat \<Rightarrow> string \<times> nat" where
  "generateShortcode rnd pos len = generateLoop rnd len pos []"

section \<open>models.js\<close>

text \<open>
  The two collections. A timestamp is the time value of a \<^verbatim>\<open>Date\<close>: milliseconds since
  the epoch (\<^verbatim>\<open>Date.getTime()\<close>), an integer. The \<open>metadata\<close> object holds the two values
  the create handler puts there; \<open>geo\<close> holds the country, which the redirect handler
  sets to \<^verbatim>\<open>null\<close>.

  \<^verbatim>\<open>new Date(t)\<close> is a valid date only for a time value of at most 8.64e15 milliseconds
  either side of the epoch; beyond, it is an Invalid Date. Up to that bound the
  handler's arithmetic on time values is exact in JavaScript's numbers.
\<close>

definition validDate :: "int \<Rightarrow> bool" where
  "validDate t = (- 8640000000000000 \<le> t \<and> t \<le> 8640000000000000)"

record metadata =
  createdFromIP :: string
  userAgent :: "string option"

record shorturl =
  shortcode :: string
  originalUrl :: string
  createdAt :: int
  expiryAt :: int
  validityMinutes :: int
  clicksCount :: int
  metadata :: metadata

record click =
  click_shortcode :: string
  clickedAt :: int
  referrer :: "string option"
  click_ip :: string
  click_userAgent :: "string option"
  geo :: "string option"

record store =
  shorturls :: "shorturl list"
  clicks :: "click list"

section \<open>Storage calls\<close>

text \<open>
  What a rejected promise or a \<^verbatim>\<open>throw\<close> carries: an object \<^verbatim>\<open>{status, message}\<close> thrown by
  \<^verbatim>\<open>makeUniqueShortcode\<close>, the driver's duplicate-key error (\<^verbatim>\<open>code === 11000\<close>, raised by
  the unique index on \<open>shortcode\<close>), or any other rejection of a call on a model: a
  failed storage call, a failed validation.
\<close>

datatype exn = Thrown nat string | DuplicateKey | StorageFailure

text \<open>
  The environment of one request. \<open>now\<close> is the handler's \<^verbatim>\<open>new Date()\<close>; \<open>dateNow\<close> is
  \<^verbatim>\<open>Date.now()\<close> when a schema default is filled in; \<open>random\<close> is the random source;
  \<open>isURL\<close> is \<^verbatim>\<open>validator.isURL\<close> with the options of \<^verbatim>\<open>isValidUrl\<close> (a library);
  \<open>fault k\<close> says that the \<open>k\<close>-th storage call of the request (counted from 0) is
  rejected with an error other than a duplicate key; \<open>racing a\<close> are the documents
  that other requests insert between this request's existence check and its \<open>a\<close>-th
  attempt to save (counted from 0).
\<close>

record env =
  now :: int
  dateNow :: int
  random :: "nat \<Rightarrow> nat"
  isURL :: "string \<Rightarrow> bool"
  fault :: "nat \<Rightarrow> bool"
  racing :: "nat \<Rightarrow> shorturl list"

text \<open>The request's own counters: random draws made and storage calls issued.\<close>

record ctx =
  draws :: nat
  calls :: nat

definition ctx0 :: ctx where
  "ctx0 = \<lparr>draws = 0, calls = 0\<rparr>"

definition called :: "ctx \<Rightarrow> ctx" where
  "called c = c\<lparr>calls := Suc (calls c)\<rparr>"

text \<open>\<^verbatim>\<open>ShortUrl.findOne({ shortcode: sc })\<close>: the first document whose shortcode is \<open>sc\<close>.\<close>

definition findOne :: "env \<Rightarrow> ctx \<Rightarrow> store \<Rightarrow> string \<Rightarrow> (exn + shorturl option) \<times> ctx" where
  "findOne e c st sc =
     (if fault e (calls c) then (Inl StorageFailure, called c)
      else (Inr (find (\<lambda>d. shortcode d = sc) (shorturls st)), called c))"

text \<open>
  An insert into the collection with the unique index on \<open>shortcode\<close>: refused with the
  duplicate-key error when a document with that shortcode is there.
\<close>

definition insertShortUrl :: "shorturl \<Rightarrow> store \<Rightarrow> exn + store" where
  "insertShortUrl d st =
     (if shortcode d \<in> set (map shortcode (shorturls st)) then Inl DuplicateKey
      else Inr (st\<lparr>shorturls := shorturls st @ [d]\<rparr>))"

text \<open>
  \<^verbatim>\<open>new ShortUrl({...}).save()\<close>. The schema requires \<open>expiryAt\<close> to be a date: a document
  whose \<open>expiryAt\<close> is an Invalid Date is rejected by the validation that \<^verbatim>\<open>save\<close> runs
  first, with an error that is not a duplicate key and before any storage call.
\<close>

definition saveShortUrl :: "env \<Rightarrow> ctx \<Rightarrow> store \<Rightarrow> shorturl \<Rightarrow> (exn + shorturl) \<times> store \<times> ctx" where
  "saveShortUrl e c st d =
     (if \<not> validDate (expiryAt d) then (Inl StorageFailure, st, c)
      else if fault e (calls c) then (Inl StorageFailure, st, called c)
      else (case insertShortUrl d st of
              Inl x \<Rightarrow> (Inl x, st, called c)
            | Inr st' \<Rightarrow> (Inr d, st', called c)))"

text \<open>The inserts of other requests: each goes through the same unique index.\<close>

fun commitRacing :: "shorturl list \<Rightarrow> store \<Rightarrow> store" where
  "commitRacing [] st = st"
| "commitRacing (d # ds) st =
     commitRacing ds (case insertShortUrl d st of Inl x \<Rightarrow> st | Inr st' \<Rightarrow> st')"

section \<open>server.js: the allocator\<close>

definition RESERVED_SHORTCODES :: "string set" where
  "RESERVED_SHORTCODES = {''shorturls'', ''api'', ''admin'', ''health'', ''favicon.ico''}"

text \<open>
  The generation loop of \<^verbatim>\<open>makeUniqueShortcode\<close>: \<^verbatim>\<open>for (attempt = 0; attempt < 8; attempt++)\<close>.
  The first argument counts the attempts left. A reserved candidate uses up its attempt
  (\<^verbatim>\<open>continue\<close>) without a storage call.
\<close>

fun generationLoop :: "env \<Rightarrow> store \<Rightarrow> nat \<Rightarrow> ctx \<Rightarrow> (exn + string) \<times> ctx" where
  "generationLoop e st 0 c =
     (Inl (Thrown 500 ''unable to generate unique shortcode, try again''), c)"
| "generationLoop e st (Suc n) c =
     (let (candidate, pos) = generateShortcode (random e) (draws c) 6;
          c1 = c\<lparr>draws := pos\<rparr>
      in if toLowerCase candidate \<in> RESERVED_SHORTCODES then generationLoop e st n c1
         else (case findOne e c1 st candidate of
                 (Inl x, c2) \<Rightarrow> (Inl x, c2)
               | (Inr (Some d), c2) \<Rightarrow> generationLoop e st n c2
               | (Inr None, c2) \<Rightarrow> (Inr candidate, c2)))"

text \<open>
  \<^verbatim>\<open>makeUniqueShortcode(desired)\<close>: \<open>desired\<close> is \<^verbatim>\<open>null\<close> or a string, and the empty
  string is falsy.
\<close>

definition makeUniqueShortcode :: "env \<Rightarrow> store \<Rightarrow> string option \<Rightarrow> ctx \<Rightarrow> (exn + string) \<times> ctx" where
  "makeUniqueShortcode e st desired c =
     (case desired of
        None \<Rightarrow> generationLoop e st 8 c
      | Some d \<Rightarrow>
          if d = [] then generationLoop e st 8 c
          else (let normalized = trim d in
                if toLowerCase normalized \<in> RESERVED_SHORTCODES
                then (Inl (Thrown 400 ''shortcode not allowed''), c)
                else (case findOne e c st normalized of
                        (Inl x, c1) \<Rightarrow> (Inl x, c1)
                      | (Inr (Some existing), c1) \<Rightarrow>
                          (Inl (Thrown 409 ''shortcode already exists''), c1)
                      | (Inr None, c1) \<Rightarrow> (Inr normalized, c1))))"

section \<open>server.js: requests and responses\<close>

text \<open>
  Each handler is modelled as the callback of its route: a function of the request, the
  environment and the store. Which route a request reaches is decided by the framework
  and is not modelled.

  What the handlers read of a request: \<^verbatim>\<open>req.ip\<close>, the \<^verbatim>\<open>Referer\<close> and \<^verbatim>\<open>User-Agent\<close>
  headers, and the base of the short link (\<^verbatim>\<open>process.env.BASE_URL\<close> or protocol and host).
\<close>

record request =
  req_ip :: string
  req_referer :: "string option"
  req_userAgent :: "string option"
  req_base :: string

text \<open>
  \<^verbatim>\<open>Number(validity)\<close> as the create handler reads it: an integer, or a value for
  which \<^verbatim>\<open>Number.isInteger\<close> is false (\<^verbatim>\<open>NaN\<close>, an infinity, a fraction).
\<close>

datatype number = Integer int | NonInteger

text \<open>
  The JSON body of a create request, with the types the interface gives its fields:
  \<open>None\<close> is an absent field. Values of other JSON types are not modelled.
\<close>

record body =
  url :: "string option"
  validity :: "number option"
  body_shortcode :: "string option"

record clickDetail =
  timestamp :: int
  detail_referrer :: "string option"
  detail_ip :: string
  detail_userAgent :: "string option"
  detail_geo :: "string option"

record details =
  d_shortcode :: string
  d_originalUrl :: string
  d_createdAt :: int
  d_expiryAt :: int
  clicksTotal :: int
  d_clicks :: "clickDetail list"

datatype payload =
    ErrorBody string
  | CreatedBody string int
  | DetailsBody details

text \<open>
  \<^verbatim>\<open>res.status(s).json(body)\<close> and \<^verbatim>\<open>res.redirect(s, url)\<close>. In \<open>CreatedBody\<close> the first
  field is \<open>shortLink\<close>, the second the timestamp that \<open>expiry\<close> prints. The calls
  of the logger write to no collection and decide no response; they are left out.
\<close>

datatype response = Json nat payload | Redirect nat string

definition internalError :: response where
  "internalError = Json 500 (ErrorBody ''internal server error'')"

section \<open>server.js: POST /shorturls\<close>

definition toNumber :: "number option \<Rightarrow> number" where
  "toNumber v = (case v of None \<Rightarrow> NonInteger | Some n \<Rightarrow> n)"

text \<open>
  \<^verbatim>\<open>Number.isInteger(Number(validity)) && Number(validity) > 0 ? Number(validity) : 30\<close>
\<close>

definition validMinutesOf :: "number option \<Rightarrow> int" where
  "validMinutesOf v = (case toNumber v of Integer n \<Rightarrow> if n > 0 then n else 30 | NonInteger \<Rightarrow> 30)"

definition newShortUrl :: "env \<Rightarrow> request \<Rightarrow> string \<Rightarrow> int \<Rightarrow> string \<Rightarrow> shorturl" where
  "newShortUrl e req u validMinutes chosen =
     \<lparr>shortcode = chosen, originalUrl = u, createdAt = now e,
      expiryAt = now e + validMinutes * 60000, validityMinutes = validMinutes,
      clicksCount = 0,
      metadata = \<lparr>createdFromIP = req_ip req, userAgent = req_userAgent req\<rparr>\<rparr>"

text \<open>
  The save loop: \<^verbatim>\<open>for (attempt = 0; attempt < 5; attempt++)\<close>. The third argument counts
  the attempts left, the fourth is \<open>attempt\<close>. The result is \<open>savedDoc\<close> and \<open>chosen\<close>,
  or the exception that \<^verbatim>\<open>makeUniqueShortcode(null)\<close> throws inside the \<^verbatim>\<open>catch\<close> block.
\<close>

fun saveLoop ::
  "env \<Rightarrow> (string \<Rightarrow> shorturl) \<Rightarrow> nat \<Rightarrow> nat \<Rightarrow> string \<Rightarrow> store \<Rightarrow> ctx
     \<Rightarrow> (exn + shorturl option \<times> string) \<times> store \<times> ctx" where
  "saveLoop e mk 0 attempt chosen st c = (Inr (None, chosen), st, c)"
| "saveLoop e mk (Suc n) attempt chosen st c =
     (case saveShortUrl e c (commitRacing (racing e attempt) st) (mk chosen) of
        (Inr savedDoc, st1, c1) \<Rightarrow> (Inr (Some savedDoc, chosen), st1, c1)
      | (Inl DuplicateKey, st1, c1) \<Rightarrow>
          (case makeUniqueShortcode e st1 None c1 of
             (Inl x, c2) \<Rightarrow> (Inl x, st1, c2)
           | (Inr chosen', c2) \<Rightarrow> saveLoop e mk n (Suc attempt) chosen' st1 c2)
      | (Inl x, st1, c1) \<Rightarrow> (Inr (None, chosen), st1, c1))"

text \<open>The handler's \<^verbatim>\<open>catch (err)\<close>: \<^verbatim>\<open>err.status\<close> is truthy when it is not 0.\<close>

definition catchCreate :: "exn \<Rightarrow> response" where
  "catchCreate x =
     (case x of
        Thrown status message \<Rightarrow> if status \<noteq> 0 then Json status (ErrorBody message) else internalError
      | DuplicateKey \<Rightarrow> internalError
      | StorageFailure \<Rightarrow> internalError)"

text \<open>The part of the handler after \<open>chosen\<close> is set.\<close>

definition saveAndRespond ::
  "env \<Rightarrow> request \<Rightarrow> string \<Rightarrow> int \<Rightarrow> string \<Rightarrow> store \<Rightarrow> ctx \<Rightarrow> response \<times> store" where
  "saveAndRespond e req u validMinutes chosen st c =
     (case saveLoop e (newShortUrl e req u validMinutes) 5 0 chosen st c of
        (Inl x, st1, c1) \<Rightarrow> (catchCreate x, st1)
      | (Inr (None, chosen'), st1, c1) \<Rightarrow> (internalError, st1)
      | (Inr (Some savedDoc, chosen'), st1, c1) \<Rightarrow>
          (Json 201 (CreatedBody (req_base req @ ''/'' @ chosen') (now e + validMinutes * 60000)),
           st1))"

text \<open>
  The handler. It returns the response and the store it leaves behind. The message of
  the invalid-shortcode response has a dash outside ASCII in the source; it is written
  \<open>-\<close> here.
\<close>

definition createShortUrl :: "env \<Rightarrow> request \<Rightarrow> body \<Rightarrow> store \<Rightarrow> response \<times> store" where
  "createShortUrl e req b st =
     (case url b of
        None \<Rightarrow> (Json 400 (ErrorBody ''url is required and must be a string''), st)
      | Some u \<Rightarrow>
          if u = [] then (Json 400 (ErrorBody ''url is required and must be a string''), st)
          else if \<not> isURL e u
          then (Json 400 (ErrorBody ''url must include protocol (http/https) and be a valid URL''), st)
          else (let validMinutes = validMinutesOf (validity b) in
            if validMinutes \<le> 0
            then (Json 400 (ErrorBody ''validity must be a positive integer (minutes)''), st)
            else (case body_shortcode b of
                None \<Rightarrow>
                  (case makeUniqueShortcode e st None ctx0 of
                     (Inl x, c) \<Rightarrow> (catchCreate x, st)
                   | (Inr chosen, c) \<Rightarrow> saveAndRespond e req u validMinutes chosen st c)
              | Some s \<Rightarrow>
                  if s = []
                  then (case makeUniqueShortcode e st None ctx0 of
                          (Inl x, c) \<Rightarrow> (catchCreate x, st)
                        | (Inr chosen, c) \<Rightarrow> saveAndRespond e req u validMinutes chosen st c)
                  else (case normalizeShortcode (Some s) of
                          None \<Rightarrow>
                            (Json 400 (ErrorBody
                               ''invalid shortcode - only A-Z a-z 0-9 _ - allowed, length 3..30''), st)
                        | Some normalized \<Rightarrow>
                            (case makeUniqueShortcode e st (Some normalized) ctx0 of
                               (Inl x, c) \<Rightarrow> (catchCreate x, st)
                             | (Inr chosen, c) \<Rightarrow>
                                 saveAndRespond e req u validMinutes chosen st c)))))"

section \<open>server.js: GET /:shortcode\<close>

text \<open>
  The two writes of the redirect handler. The handler's effect on the store is the list
  of the writes it has completed, in the order it issued them.
\<close>

datatype dbwrite = SaveClick click | IncClicksCount string

text \<open>\<^verbatim>\<open>updateOne({ shortcode: sc }, { $inc: { clicksCount: 1 } })\<close>: the first match.\<close>

fun incClicksCount :: "string \<Rightarrow> shorturl list \<Rightarrow> shorturl list" where
  "incClicksCount sc [] = []"
| "incClicksCount sc (d # ds) =
     (if shortcode d = sc then d\<lparr>clicksCount := clicksCount d + 1\<rparr> # ds
      else d # incClicksCount sc ds)"

fun applyWrite :: "store \<Rightarrow> dbwrite \<Rightarrow> store" where
  "applyWrite st (SaveClick cl) = st\<lparr>clicks := clicks st @ [cl]\<rparr>"
| "applyWrite st (IncClicksCount sc) = st\<lparr>shorturls := incClicksCount sc (shorturls st)\<rparr>"

definition saveClick :: "env \<Rightarrow> ctx \<Rightarrow> click \<Rightarrow> (exn + dbwrite) \<times> ctx" where
  "saveClick e c cl =
     (if fault e (calls c) then (Inl StorageFailure, called c) else (Inr (SaveClick cl), called c))"

definition updateOne :: "env \<Rightarrow> ctx \<Rightarrow> string \<Rightarrow> (exn + dbwrite) \<times> ctx" where
  "updateOne e c sc =
     (if fault e (calls c) then (Inl StorageFailure, called c)
      else (Inr (IncClicksCount sc), called c))"

text \<open>\<^verbatim>\<open>req.get('Referer') || null\<close>\<close>

definition orNull :: "string option \<Rightarrow> string option" where
  "orNull v = (case v of None \<Rightarrow> None | Some s \<Rightarrow> if s = [] then None else Some s)"

definition newClick :: "env \<Rightarrow> request \<Rightarrow> string \<Rightarrow> click" where
  "newClick e req sc =
     \<lparr>click_shortcode = sc, clickedAt = dateNow e, referrer = orNull (req_referer req),
      click_ip = req_ip req, click_userAgent = req_userAgent req, geo = None\<rparr>"

definition notFound :: response where
  "notFound = Json 404 (ErrorBody ''shortcode not found'')"

definition redirectOps :: "env \<Rightarrow> request \<Rightarrow> string \<Rightarrow> store \<Rightarrow> response \<times> dbwrite list" where
  "redirectOps e req sc st =
     (if toLowerCase sc \<in> RESERVED_SHORTCODES then (notFound, [])
      else (case findOne e ctx0 st sc of
              (Inl x, c1) \<Rightarrow> (internalError, [])
            | (Inr None, c1) \<Rightarrow> (notFound, [])
            | (Inr (Some doc), c1) \<Rightarrow>
                if now e > expiryAt doc then (Json 410 (ErrorBody ''shortcode expired''), [])
                else (case saveClick e c1 (newClick e req sc) of
                        (Inl x, c2) \<Rightarrow> (internalError, [])
                      | (Inr w1, c2) \<Rightarrow>
                          (case updateOne e c2 sc of
                             (Inl x, c3) \<Rightarrow> (internalError, [w1])
                           | (Inr w2, c3) \<Rightarrow> (Redirect 302 (originalUrl doc), [w1, w2])))))"

definition redirect :: "env \<Rightarrow> request \<Rightarrow> string \<Rightarrow> store \<Rightarrow> response \<times> store" where
  "redirect e req sc st =
     (case redirectOps e req sc st of (r, ws) \<Rightarrow> (r, foldl applyWrite st ws))"

section \<open>server.js: GET /shorturls/:shortcode\<close>

text \<open>\<^verbatim>\<open>Click.find({ shortcode: sc }).sort({ clickedAt: -1 })\<close>: newest first.\<close>

definition findClicks :: "env \<Rightarrow> ctx \<Rightarrow> store \<Rightarrow> string \<Rightarrow> (exn + click list) \<times> ctx" where
  "findClicks e c st sc =
     (if fault e (calls c) then (Inl StorageFailure, called c)
      else (Inr (sort_key (\<lambda>cl. - clickedAt cl) (filter (\<lambda>cl. click_shortcode cl = sc) (clicks st))),
            called c))"

definition clickDetails :: "click \<Rightarrow> clickDetail" where
  "clickDetails cl =
     \<lparr>timestamp = clickedAt cl, detail_referrer = referrer cl, detail_ip = click_ip cl,
      detail_userAgent = click_userAgent cl, detail_geo = geo cl\<rparr>"

definition stats :: "env \<Rightarrow> string \<Rightarrow> store \<Rightarrow> response" where
  "stats e sc st =
     (case findOne e ctx0 st sc of
        (Inl x, c1) \<Rightarrow> internalError
      | (Inr None, c1) \<Rightarrow> notFound
      | (Inr (Some doc), c1) \<Rightarrow>
          (case findClicks e c1 st sc of
             (Inl x, c2) \<Rightarrow> internalError
           | (Inr cls, c2) \<Rightarrow>
               Json 200 (DetailsBody
                 \<lparr>d_shortcode = sc, d_originalUrl = originalUrl doc, d_createdAt = createdAt doc,
                  d_expiryAt = expiryAt doc, clicksTotal = clicksCount doc,
                  d_clicks = map clickDetails cls\<rparr>)))"

section \<open>The allocator as the specification words it\<close>

text \<open>
  The specification's allocator without a desired shortcode: candidates are generated
  one after the other, each from the next six draws; a candidate is available when it is
  not a reserved name and no stored link has it; the first available one of the first
  \<open>n\<close> candidates is returned, and the allocation fails when there is none. These three
  definitions follow the specification, not the source; the allocator of the source is
  compared with them below.
\<close>

definition candidate :: "env \<Rightarrow> nat \<Rightarrow> string" where
  "candidate e pos = fst (generateShortcode (random e) pos 6)"

definition available :: "store \<Rightarrow> string \<Rightarrow> bool" where
  "available st cand =
     (toLowerCase cand \<notin> RESERVED_SHORTCODES \<and> find (\<lambda>d. shortcode d = cand) (shorturls st) = None)"

definition spec_firstAvailable :: "env \<Rightarrow> store \<Rightarrow> nat \<Rightarrow> nat \<Rightarrow> exn + string" where
  "spec_firstAvailable e st n pos =
     (case find (available st) (map (\<lambda>k. candidate e (pos + 6 * k)) [0..<n]) of
        Some cand \<Rightarrow> Inr cand
      | None \<Rightarrow> Inl (Thrown 500 ''unable to generate unique shortcode, try again''))"

section \<open>The counter and the event log\<close>

text \<open>
  The number of click events recorded for a shortcode, and the property that no stored
  link counts more clicks than the log holds events for its shortcode.
\<close>

definition clickEvents :: "store \<Rightarrow> string \<Rightarrow> int" where
  "clickEvents st sc = int (length (filter (\<lambda>cl. click_shortcode cl = sc) (clicks st)))"

definition neverOverCounted :: "store \<Rightarrow> bool" where
  "neverOverCounted st = list_all (\<lambda>d. clicksCount d \<le> clickEvents st (shortcode d)) (shorturls st)"

section \<open>Sample requests and stores\<close>

definition sampleEnv :: env where
  "sampleEnv =
     \<lparr>now = 2000000, dateNow = 2000001, random = (\<lambda>k. 0), isURL = (\<lambda>u. take 8 u = ''https://''),
      fault = (\<lambda>k. False), racing = (\<lambda>a. [])\<rparr>"

definition sampleRequest :: request where
  "sampleRequest =
     \<lparr>req_ip = ''203.0.113.7'', req_referer = Some ''https://news.example/'',
      req_userAgent = Some ''curl/8.5'', req_base = ''http://localhost:4000''\<rparr>"

definition sampleLink :: "string \<Rightarrow> string \<Rightarrow> int \<Rightarrow> shorturl" where
  "sampleLink sc u expiry =
     \<lparr>shortcode = sc, originalUrl = u, createdAt = expiry - 1800000, expiryAt = expiry,
      validityMinutes = 30, clicksCount = 0,
      metadata = \<lparr>createdFromIP = ''198.51.100.2'', userAgent = None\<rparr>\<rparr>"

definition emptyStore :: store where
  "emptyStore = \<lparr>shorturls = [], clicks = []\<rparr>"

text \<open>One link, \<open>promo1\<close>, whose expiry is the \<open>now\<close> of \<open>sampleEnv\<close>.\<close>

definition promoStore :: store where
  "promoStore = \<lparr>shorturls = [sampleLink ''promo1'' ''https://example.com'' 2000000], clicks = []\<rparr>"

text \<open>A store that holds a link under a reserved name, put there behind the service's back.\<close>

definition reservedStore :: store where
  "reservedStore = \<lparr>shorturls = [sampleLink ''Admin'' ''https://example.org'' 5000000], clicks = []\<rparr>"

text \<open>A random source whose first six draws spell \<open>health\<close>; every later draw is 0.\<close>

definition healthFirst :: "nat \<Rightarrow> nat" where
  "healthFirst k = (if k < 6 then [33, 30, 26, 37, 45, 33] ! k else 0)"

text \<open>
  Another request stores \<open>promo1\<close> after this request's existence check and before its
  first attempt to save.
\<close>

definition raceEnv :: env where
  "raceEnv =
     sampleEnv\<lparr>racing := (\<lambda>a. if a = 0 then [sampleLink ''promo1'' ''https://other.example'' 3000000]
                               else [])\<rparr>"

definition promoBody :: body where
  "promoBody = \<lparr>url = Some ''https://example.com'', validity = None, body_shortcode = Some ''promo1''\<rparr>"

definition negativeValidityBody :: body where
  "negativeValidityBody =
     \<lparr>url = Some ''https://example.com'', validity = Some (Integer (- 5)), body_shortcode = None\<rparr>"

text \<open>The environments in which the first, and the second, click-recording write fails.\<close>

definition clickSaveFails :: env where
  "clickSaveFails = sampleEnv\<lparr>fault := (\<lambda>k. k = 1)\<rparr>"

definition incrementFails :: env where
  "incrementFails = sampleEnv\<lparr>fault := (\<lambda>k. k = 2)\<rparr>"

text \<open>The store after \<open>Promo1\<close> has been created next to \<open>promo1\<close>.\<close>

definition twoCaseStore :: store where
  "twoCaseStore =
     \<lparr>shorturls = [sampleLink ''promo1'' ''https://example.com'' 2000000,
                   newShortUrl sampleEnv sampleRequest ''https://example.net'' 30 ''Promo1''],
      clicks = []\<rparr>"

definition upperBody :: body where
  "upperBody = \<lparr>url = Some ''https://example.net'', validity = None, body_shortcode = Some ''Promo1''\<rparr>"

text \<open>The environment whose first candidate is \<open>health\<close> and whose later ones are \<open>AAAAAA\<close>.\<close>

definition healthEnv :: env where
  "healthEnv = sampleEnv\<lparr>random := healthFirst\<rparr>"

text \<open>One millisecond after the expiry of \<open>promo1\<close>.\<close>

definition laterEnv :: env where
  "laterEnv = sampleEnv\<lparr>now := 2000001\<rparr>"

text \<open>The link \<open>promo1\<close> after two visits.\<close>

definition visitedStore :: store where
  "visitedStore =
     \<lparr>shorturls = [(sampleLink ''promo1'' ''https://example.com'' 2000000)\<lparr>clicksCount := 2\<rparr>],
      clicks =
        [\<lparr>click_shortcode = ''promo1'', clickedAt = 1500000, referrer = None,
          click_ip = ''203.0.113.7'', click_userAgent = Some ''curl/8.5'', geo = None\<rparr>,
         \<lparr>click_shortcode = ''promo1'', clickedAt = 1900000,
          referrer = Some ''https://news.example/'',
          click_ip = ''203.0.113.9'', click_userAgent = None, geo = None\<rparr>]\<rparr>"

text \<open>A request whose validity puts the expiry past the last valid date.\<close>

definition farFutureBody :: body where
  "farFutureBody =
     \<lparr>url = Some ''https://example.com'', validity = Some (Integer 144000000000),
      body_shortcode = Some ''Promo1''\<rparr>"

section \<open>Stores without reserved names\<close>

definition reservedFree :: "shorturl list \<Rightarrow> bool" where
  "reservedFree ds = list_all (\<lambda>d. toLowerCase (shortcode d) \<notin> RESERVED_SHORTCODES) ds"

section \<open>Reserved names\<close>

lemma isWhiteSpace_toLowerChar: "isWhiteSpace (toLowerChar c) = isWhiteSpace c"
  by (auto simp: isWhiteSpace_def toLowerChar_def Let_def)

lemma dropWhile_none: "list_all (\<lambda>c. \<not> P c) s \<Longrightarrow> dropWhile P s = s"
  by (cases s) auto

lemma trim_no_space:
  assumes "list_all (\<lambda>c. \<not> isWhiteSpace c) s"
  shows "trim s = s"
proof -
  from assms have "list_all (\<lambda>c. \<not> isWhiteSpace c) (rev s)"
    by (simp add: list_all_iff)
  then show ?thesis
    unfolding trim_def by (simp add: dropWhile_none [OF assms] dropWhile_none)
qed

lemma reserved_no_space:
  "r \<in> RESERVED_SHORTCODES \<Longrightarrow> list_all (\<lambda>c. \<not> isWhiteSpace c) r"
  unfolding RESERVED_SHORTCODES_def by (auto simp: isWhiteSpace_def)

lemma reserved_trim:
  assumes "toLowerCase name \<in> RESERVED_SHORTCODES"
  shows "trim name = name"
proof -
  have "list_all (\<lambda>c. \<not> isWhiteSpace c) (toLowerCase name)"
    using assms by (rule reserved_no_space)
  then have "list_all (\<lambda>c. \<not> isWhiteSpace c) name"
    by (simp add: toLowerCase_def list_all_iff isWhiteSpace_toLowerChar)
  then show ?thesis by (rule trim_no_space)
qed

lemma trim_no_break_space:
  "normalizeShortcode (Some (char_of (160::nat) # ''abc'' @ [char_of (160::nat)])) = Some ''abc''"
  by code_simp

lemma reserved_nonempty: "toLowerCase name \<in> RESERVED_SHORTCODES \<Longrightarrow> name \<noteq> []"
  by (auto simp: RESERVED_SHORTCODES_def toLowerCase_def)

text \<open>
  Claim C3. A name that is a reserved name in any letter case (its lower-cased form is
  in the registry) is never allocated and never resolves: \<^verbatim>\<open>makeUniqueShortcode\<close> throws
  \<^verbatim>\<open>{status: 400, message: 'shortcode not allowed'}\<close>, the error the specification calls
  Forbidden, before any storage call, and the redirect handler answers 404
  \<^verbatim>\<open>shortcode not found\<close> and leaves the store as it is, whatever the store holds and
  whatever the storage calls would have answered.
\<close>

theorem reserved_names_never_allocated_never_resolved:
  assumes "toLowerCase name \<in> RESERVED_SHORTCODES"
  shows "makeUniqueShortcode e st (Some name) c = (Inl (Thrown 400 ''shortcode not allowed''), c)
       \<and> redirect e req name st = (Json 404 (ErrorBody ''shortcode not found''), st)"
proof -
  have t: "trim name = name" using assms by (rule reserved_trim)
  have n: "name \<noteq> []" using assms by (rule reserved_nonempty)
  have a: "makeUniqueShortcode e st (Some name) c = (Inl (Thrown 400 ''shortcode not allowed''), c)"
    using assms by (simp add: makeUniqueShortcode_def t n)
  have b: "redirect e req name st = (Json 404 (ErrorBody ''shortcode not found''), st)"
    using assms by (simp add: redirect_def redirectOps_def notFound_def)
  from a b show ?thesis by simp
qed

theorem reserved_names_never_allocated_never_resolved_witness:
  "toLowerCase ''Admin'' \<in> RESERVED_SHORTCODES
   \<and> find (\<lambda>d. shortcode d = ''Admin'') (shorturls reservedStore)
       = Some (sampleLink ''Admin'' ''https://example.org'' 5000000)
   \<and> makeUniqueShortcode sampleEnv reservedStore (Some ''Admin'') ctx0
       = (Inl (Thrown 400 ''shortcode not allowed''), ctx0)
   \<and> redirect sampleEnv sampleRequest ''Admin'' reservedStore
       = (Json 404 (ErrorBody ''shortcode not found''), reservedStore)"
proof -
  have h: "toLowerCase ''Admin'' \<in> RESERVED_SHORTCODES"
    by code_simp
  have s: "find (\<lambda>d. shortcode d = ''Admin'') (shorturls reservedStore)
       = Some (sampleLink ''Admin'' ''https://example.org'' 5000000)"
    by (simp add: reservedStore_def sampleLink_def)
  show ?thesis
    using h s
      reserved_names_never_allocated_never_resolved
        [OF h, of sampleEnv reservedStore ctx0 sampleRequest]
    by simp
qed

section \<open>Allocation without a desired shortcode\<close>

lemma snd_generateLoop: "snd (generateLoop rnd n pos out) = pos + n"
  by (induction n arbitrary: pos out) auto

lemma generateShortcode_eq:
  "generateShortcode (random e) pos 6 = (candidate e pos, pos + 6)"
  by (simp add: candidate_def prod_eq_iff generateShortcode_def snd_generateLoop)

lemma spec_firstAvailable_0:
  "spec_firstAvailable e st 0 pos =
     Inl (Thrown 500 ''unable to generate unique shortcode, try again'')"
  by (simp add: spec_firstAvailable_def)

lemma spec_firstAvailable_Suc:
  "spec_firstAvailable e st (Suc n) pos =
     (if available st (candidate e pos) then Inr (candidate e pos)
      else spec_firstAvailable e st n (pos + 6))"
proof -
  have "map (\<lambda>k. candidate e (pos + 6 * k)) [0..<Suc n] =
        candidate e pos # map (\<lambda>k. candidate e (pos + 6 + 6 * k)) [0..<n]"
    by (simp add: upt_conv_Cons map_Suc_upt [symmetric] add.assoc del: upt_Suc)
  then show ?thesis
    by (simp add: spec_firstAvailable_def del: upt_Suc)
qed

text \<open>
  The loop with \<open>n\<close> attempts left, by induction on \<open>n\<close>; the counters change from one
  attempt to the next, so they are generalised.
\<close>

lemma generationLoop_spec:
  assumes "\<And>k. \<not> fault e k"
  shows "fst (generationLoop e st n c) = spec_firstAvailable e st n (draws c)
       \<and> draws (snd (generationLoop e st n c)) \<le> draws c + 6 * n
       \<and> calls (snd (generationLoop e st n c)) \<le> calls c + n"
proof (induction n arbitrary: c)
  case 0
  show ?case by (simp add: spec_firstAvailable_0)
next
  case (Suc n)
  let ?cand = "candidate e (draws c)"
  let ?c1 = "c\<lparr>draws := draws c + 6\<rparr>"
  show ?case
  proof (cases "toLowerCase ?cand \<in> RESERVED_SHORTCODES")
    case True
    then have "generationLoop e st (Suc n) c = generationLoop e st n ?c1"
      by (simp add: generateShortcode_eq)
    moreover have "\<not> available st ?cand" using True by (simp add: available_def)
    ultimately show ?thesis
      using Suc.IH [of ?c1] by (simp add: spec_firstAvailable_Suc)
  next
    case False
    show ?thesis
    proof (cases "find (\<lambda>d. shortcode d = ?cand) (shorturls st)")
      case None
      then have "generationLoop e st (Suc n) c = (Inr ?cand, called ?c1)"
        using False assms by (simp add: generateShortcode_eq findOne_def)
      moreover have "available st ?cand" using False None by (simp add: available_def)
      ultimately show ?thesis
        by (simp add: spec_firstAvailable_Suc called_def)
    next
      case (Some d)
      then have "generationLoop e st (Suc n) c = generationLoop e st n (called ?c1)"
        using False assms by (simp add: generateShortcode_eq findOne_def)
      moreover have "\<not> available st ?cand" using Some by (simp add: available_def)
      ultimately show ?thesis
        using Suc.IH [of "called ?c1"] by (simp add: spec_firstAvailable_Suc called_def)
    qed
  qed
qed

text \<open>
  Claim C6. With no desired shortcode, and every storage call answered, the allocator
  returns what the specification's allocator returns for 8 candidates: the first
  candidate that is neither a reserved name nor present in storage, and the error
  \<^verbatim>\<open>{status: 500, message: 'unable to generate unique shortcode, try again'}\<close> (the
  specification's ExhaustedRetries) when none of the 8 is available. It draws at most
  8 candidates of 6 characters and issues at most 8 lookups.
\<close>

theorem allocator_generates_at_most_8_candidates:
  assumes "\<And>k. \<not> fault e k"
  shows "fst (makeUniqueShortcode e st None c) = spec_firstAvailable e st 8 (draws c)
       \<and> draws (snd (makeUniqueShortcode e st None c)) \<le> draws c + 6 * 8
       \<and> calls (snd (makeUniqueShortcode e st None c)) \<le> calls c + 8"
  using generationLoop_spec [OF assms, of st 8 c]
  by (simp add: makeUniqueShortcode_def)

theorem allocator_generates_at_most_8_candidates_witness:
  "(\<forall>k. \<not> fault healthEnv k)
   \<and> candidate healthEnv 0 = ''health''
   \<and> candidate healthEnv 6 = ''AAAAAA''
   \<and> spec_firstAvailable healthEnv promoStore 8 0 = Inr ''AAAAAA''
   \<and> fst (makeUniqueShortcode healthEnv promoStore None ctx0) = Inr ''AAAAAA''
   \<and> draws (snd (makeUniqueShortcode healthEnv promoStore None ctx0)) \<le> 6 * 8"
proof -
  have f: "\<And>k. \<not> fault healthEnv k"
    by (simp add: healthEnv_def sampleEnv_def)
  have c0: "candidate healthEnv 0 = ''health''"
    by code_simp
  have c6: "candidate healthEnv 6 = ''AAAAAA''"
    by code_simp
  have s: "spec_firstAvailable healthEnv promoStore 8 0 = Inr ''AAAAAA''"
    by code_simp
  have d: "draws ctx0 = 0"
    by (simp add: ctx0_def)
  show ?thesis
    using f c0 c6 s d allocator_generates_at_most_8_candidates [OF f, of promoStore ctx0]
    by simp
qed

section \<open>The create handler stores no reserved name\<close>

text \<open>
  Every shortcode that \<^verbatim>\<open>makeUniqueShortcode\<close> returns has passed the reserved-name check,
  so a store without reserved names stays without them through every create request,
  also when other requests of the service insert their links in between. The theorems
  about stored links below are stated for shortcodes that are not reserved names.
\<close>

lemma generationLoop_result:
  "fst (generationLoop e st n c) = Inr ch \<Longrightarrow> toLowerCase ch \<notin> RESERVED_SHORTCODES"
proof (induction n arbitrary: c)
  case 0
  then show ?case by simp
next
  case (Suc n)
  let ?cand = "candidate e (draws c)"
  let ?c1 = "c\<lparr>draws := draws c + 6\<rparr>"
  show ?case
  proof (cases "toLowerCase ?cand \<in> RESERVED_SHORTCODES")
    case True
    then have "generationLoop e st (Suc n) c = generationLoop e st n ?c1"
      by (simp add: generateShortcode_eq)
    then show ?thesis using Suc by simp
  next
    case False
    show ?thesis
    proof (cases "findOne e ?c1 st ?cand")
      case (Pair r c2)
      show ?thesis
      proof (cases r)
        case (Inl x)
        then have "fst (generationLoop e st (Suc n) c) = Inl x"
          using False Pair by (simp add: generateShortcode_eq)
        then show ?thesis using Suc.prems by simp
      next
        case (Inr found)
        show ?thesis
        proof (cases found)
          case None
          then have "fst (generationLoop e st (Suc n) c) = Inr ?cand"
            using False Pair Inr by (simp add: generateShortcode_eq)
          then show ?thesis using Suc.prems False by simp
        next
          case (Some d)
          then have "generationLoop e st (Suc n) c = generationLoop e st n c2"
            using False Pair Inr by (simp add: generateShortcode_eq)
          then show ?thesis using Suc by simp
        qed
      qed
    qed
  qed
qed

lemma makeUniqueShortcode_result:
  assumes "fst (makeUniqueShortcode e st desired c) = Inr ch"
  shows "toLowerCase ch \<notin> RESERVED_SHORTCODES"
proof (cases "desired = None \<or> desired = Some []")
  case True
  then have "makeUniqueShortcode e st desired c = generationLoop e st 8 c"
    by (auto simp: makeUniqueShortcode_def)
  then show ?thesis using assms generationLoop_result by simp
next
  case False
  then obtain d where d: "desired = Some d" "d \<noteq> []" by auto
  show ?thesis
    using assms unfolding d(1) makeUniqueShortcode_def
    by (auto simp: d(2) Let_def findOne_def split: if_splits option.splits)
qed

lemma insertShortUrl_reservedFree:
  assumes "reservedFree (shorturls st)" and "toLowerCase (shortcode d) \<notin> RESERVED_SHORTCODES"
    and "insertShortUrl d st = Inr st'"
  shows "reservedFree (shorturls st')"
  using assms by (auto simp: insertShortUrl_def reservedFree_def split: if_splits)

lemma commitRacing_reservedFree:
  "reservedFree ds \<Longrightarrow> reservedFree (shorturls st) \<Longrightarrow> reservedFree (shorturls (commitRacing ds st))"
proof (induction ds arbitrary: st)
  case Nil
  then show ?case by simp
next
  case (Cons d ds)
  have d: "toLowerCase (shortcode d) \<notin> RESERVED_SHORTCODES" and ds: "reservedFree ds"
    using Cons.prems(1) by (simp_all add: reservedFree_def)
  show ?case
  proof (cases "insertShortUrl d st")
    case (Inl x)
    then show ?thesis using Cons.IH [OF ds Cons.prems(2)] by simp
  next
    case (Inr st')
    have "reservedFree (shorturls st')"
      using Cons.prems(2) d Inr by (rule insertShortUrl_reservedFree)
    then show ?thesis using Cons.IH [OF ds] Inr by simp
  qed
qed

lemma saveShortUrl_reservedFree:
  assumes "reservedFree (shorturls st)" and "toLowerCase (shortcode d) \<notin> RESERVED_SHORTCODES"
  shows "reservedFree (shorturls (fst (snd (saveShortUrl e c st d))))"
  using assms
  by (auto simp: saveShortUrl_def insertShortUrl_def reservedFree_def split: if_splits)

lemma saveLoop_reservedFree:
  assumes mk: "\<And>ch. shortcode (mk ch) = ch"
    and rc: "\<And>a. reservedFree (racing e a)"
  shows "reservedFree (shorturls st) \<Longrightarrow> toLowerCase chosen \<notin> RESERVED_SHORTCODES
     \<Longrightarrow> reservedFree (shorturls (fst (snd (saveLoop e mk n attempt chosen st c))))"
proof (induction n arbitrary: attempt chosen st c)
  case 0
  then show ?case by simp
next
  case (Suc n)
  let ?st0 = "commitRacing (racing e attempt) st"
  have st0: "reservedFree (shorturls ?st0)"
    using rc Suc.prems(1) by (rule commitRacing_reservedFree)
  obtain r st1 c1 where s: "saveShortUrl e c ?st0 (mk chosen) = (r, st1, c1)"
    by (cases "saveShortUrl e c ?st0 (mk chosen)") auto
  have st1: "reservedFree (shorturls st1)"
    using saveShortUrl_reservedFree [OF st0, of "mk chosen" e c] Suc.prems(2) s
    by (simp add: mk)
  show ?case
  proof (cases r)
    case (Inr doc)
    then show ?thesis using s st1 by simp
  next
    case (Inl x)
    show ?thesis
    proof (cases x)
      case DuplicateKey
      obtain r2 c2 where m: "makeUniqueShortcode e st1 None c1 = (r2, c2)"
        by (cases "makeUniqueShortcode e st1 None c1") auto
      show ?thesis
      proof (cases r2)
        case (Inl y)
        then show ?thesis using s \<open>r = Inl x\<close> DuplicateKey m st1 by simp
      next
        case (Inr chosen')
        have "toLowerCase chosen' \<notin> RESERVED_SHORTCODES"
          using makeUniqueShortcode_result [of e st1 None c1 chosen'] m Inr by simp
        then have "reservedFree (shorturls (fst (snd (saveLoop e mk n (Suc attempt) chosen' st1 c2))))"
          using Suc.IH [OF st1] by simp
        then show ?thesis using s \<open>r = Inl x\<close> DuplicateKey m Inr by simp
      qed
    next
      case (Thrown a b)
      then show ?thesis using s Inl st1 by simp
    next
      case StorageFailure
      then show ?thesis using s Inl st1 by simp
    qed
  qed
qed

lemma saveAndRespond_reservedFree:
  assumes "\<And>a. reservedFree (racing e a)" and "reservedFree (shorturls st)"
    and "toLowerCase chosen \<notin> RESERVED_SHORTCODES"
  shows "reservedFree (shorturls (snd (saveAndRespond e req u vm chosen st c)))"
proof -
  have mk: "\<And>ch. shortcode (newShortUrl e req u vm ch) = ch"
    by (simp add: newShortUrl_def)
  have "reservedFree (shorturls (fst (snd (saveLoop e (newShortUrl e req u vm) 5 0 chosen st c))))"
    using mk assms by (rule saveLoop_reservedFree)
  then show ?thesis
    by (auto simp: saveAndRespond_def split: prod.splits sum.splits option.splits)
qed

lemma allocate_then_save_reservedFree:
  assumes "\<And>a. reservedFree (racing e a)" and "reservedFree (shorturls st)"
  shows "reservedFree (shorturls (snd
     (case makeUniqueShortcode e st desired c0 of
        (Inl x, c) \<Rightarrow> (catchCreate x, st)
      | (Inr chosen, c) \<Rightarrow> saveAndRespond e req u vm chosen st c)))"
proof (cases "makeUniqueShortcode e st desired c0")
  case (Pair r c)
  show ?thesis
  proof (cases r)
    case (Inl x)
    then show ?thesis using Pair assms(2) by simp
  next
    case (Inr chosen)
    have "toLowerCase chosen \<notin> RESERVED_SHORTCODES"
      using makeUniqueShortcode_result [of e st desired c0 chosen] Pair Inr by simp
    then show ?thesis
      using Pair Inr saveAndRespond_reservedFree [OF assms] by simp
  qed
qed

lemma createShortUrl_reservedFree:
  assumes "\<And>a. reservedFree (racing e a)" and "reservedFree (shorturls st)"
  shows "reservedFree (shorturls (snd (createShortUrl e req b st)))"
  unfolding createShortUrl_def Let_def
  using assms(2) allocate_then_save_reservedFree [OF assms]
  by (simp split: option.splits)

section \<open>The redirect handler\<close>

text \<open>
  What the handler answers and writes for a stored shortcode that is not a reserved
  name, when the lookup is answered: the 410 response past the expiry, the 500
  response when a write is rejected, the redirect otherwise.
\<close>

lemma redirectOps_stored:
  assumes "toLowerCase sc \<notin> RESERVED_SHORTCODES"
    and "\<not> fault e 0"
    and "find (\<lambda>d. shortcode d = sc) (shorturls st) = Some doc"
  shows "redirectOps e req sc st =
     (if expiryAt doc < now e then (Json 410 (ErrorBody ''shortcode expired''), [])
      else if fault e 1 then (internalError, [])
      else if fault e 2 then (internalError, [SaveClick (newClick e req sc)])
      else (Redirect 302 (originalUrl doc), [SaveClick (newClick e req sc), IncClicksCount sc]))"
  using assms
  by (simp add: redirectOps_def findOne_def ctx0_def called_def saveClick_def updateOne_def
      numeral_2_eq_2)

lemma sample_not_reserved: "toLowerCase ''promo1'' \<notin> RESERVED_SHORTCODES"
  by code_simp

lemma sample_find:
  "find (\<lambda>d. shortcode d = ''promo1'') (shorturls promoStore)
     = Some (sampleLink ''promo1'' ''https://example.com'' 2000000)"
  by (simp add: promoStore_def sampleLink_def)

lemma sample_no_fault: "\<not> fault sampleEnv k"
  by (simp add: sampleEnv_def)

text \<open>
  Claim C1, as the code has it. For a stored shortcode that is not a reserved name and
  not expired, with the lookup answered: the redirect to the original URL is returned
  exactly when both click-recording writes succeed. When the insert of the click event
  or the increment of the counter is rejected, the handler's \<^verbatim>\<open>catch\<close> answers 500
  \<^verbatim>\<open>internal server error\<close>: the failure reaches the caller.
\<close>

theorem click_failure_answered_with_error:
  assumes "toLowerCase sc \<notin> RESERVED_SHORTCODES"
    and "\<not> fault e 0"
    and "find (\<lambda>d. shortcode d = sc) (shorturls st) = Some doc"
    and "now e \<le> expiryAt doc"
  shows "fst (redirect e req sc st) =
     (if fault e 1 \<or> fault e 2 then Json 500 (ErrorBody ''internal server error'')
      else Redirect 302 (originalUrl doc))"
  using assms(4)
  by (simp add: redirect_def redirectOps_stored [OF assms(1-3)] internalError_def)

theorem click_failure_answered_with_error_witness:
  "toLowerCase ''promo1'' \<notin> RESERVED_SHORTCODES
   \<and> \<not> fault clickSaveFails 0
   \<and> find (\<lambda>d. shortcode d = ''promo1'') (shorturls promoStore)
       = Some (sampleLink ''promo1'' ''https://example.com'' 2000000)
   \<and> now clickSaveFails \<le> expiryAt (sampleLink ''promo1'' ''https://example.com'' 2000000)
   \<and> fault clickSaveFails 1
   \<and> fst (redirect clickSaveFails sampleRequest ''promo1'' promoStore)
       = Json 500 (ErrorBody ''internal server error'')"
proof -
  have f: "\<not> fault clickSaveFails 0"
    by (simp add: clickSaveFails_def sampleEnv_def)
  have t: "now clickSaveFails \<le> expiryAt (sampleLink ''promo1'' ''https://example.com'' 2000000)"
    by (simp add: clickSaveFails_def sampleEnv_def sampleLink_def)
  have g: "fault clickSaveFails 1"
    by (simp add: clickSaveFails_def)
  show ?thesis
    using click_failure_answered_with_error [OF sample_not_reserved f sample_find t, of sampleRequest]
      sample_not_reserved f sample_find t g
    by simp
qed

text \<open>
  The claim as the specification states it fails on \<open>promo1\<close>, stored and not expired:
  when the insert of the click fails, and when the increment fails, the caller gets the
  500 response and no redirect.
\<close>

theorem click_failure_counterexample:
  "find (\<lambda>d. shortcode d = ''promo1'') (shorturls promoStore)
     = Some (sampleLink ''promo1'' ''https://example.com'' 2000000)
   \<and> now clickSaveFails \<le> expiryAt (sampleLink ''promo1'' ''https://example.com'' 2000000)
   \<and> fault clickSaveFails 1
   \<and> fst (redirect clickSaveFails sampleRequest ''promo1'' promoStore)
       = Json 500 (ErrorBody ''internal server error'')
   \<and> fst (redirect clickSaveFails sampleRequest ''promo1'' promoStore)
       \<noteq> Redirect 302 ''https://example.com''
   \<and> fault incrementFails 2
   \<and> fst (redirect incrementFails sampleRequest ''promo1'' promoStore)
       = Json 500 (ErrorBody ''internal server error'')
   \<and> fst (redirect incrementFails sampleRequest ''promo1'' promoStore)
       \<noteq> Redirect 302 ''https://example.com''"
  by code_simp

text \<open>
  Claim C4. For a stored shortcode that is not a reserved name, with the lookup
  answered, the handler answers 410 \<^verbatim>\<open>shortcode expired\<close> exactly when \<open>now\<close> is
  strictly greater than \<open>expiryAt\<close>. When \<open>now\<close> equals \<open>expiryAt\<close> the link is still
  active: with both writes answered the click is recorded and the redirect returned.
\<close>

theorem expired_exactly_when_now_after_expiry:
  assumes "toLowerCase sc \<notin> RESERVED_SHORTCODES"
    and "\<not> fault e 0"
    and "find (\<lambda>d. shortcode d = sc) (shorturls st) = Some doc"
  shows "(fst (redirect e req sc st) = Json 410 (ErrorBody ''shortcode expired''))
           = (expiryAt doc < now e)
       \<and> (now e = expiryAt doc \<and> \<not> fault e 1 \<and> \<not> fault e 2
            \<longrightarrow> redirect e req sc st =
                 (Redirect 302 (originalUrl doc),
                  foldl applyWrite st [SaveClick (newClick e req sc), IncClicksCount sc]))"
  by (simp add: redirect_def redirectOps_stored [OF assms] internalError_def)

theorem expired_exactly_when_now_after_expiry_witness:
  "toLowerCase ''promo1'' \<notin> RESERVED_SHORTCODES
   \<and> \<not> fault sampleEnv 0 \<and> \<not> fault sampleEnv 1 \<and> \<not> fault sampleEnv 2
   \<and> find (\<lambda>d. shortcode d = ''promo1'') (shorturls promoStore)
       = Some (sampleLink ''promo1'' ''https://example.com'' 2000000)
   \<and> now sampleEnv = expiryAt (sampleLink ''promo1'' ''https://example.com'' 2000000)
   \<and> fst (redirect sampleEnv sampleRequest ''promo1'' promoStore)
       \<noteq> Json 410 (ErrorBody ''shortcode expired'')
   \<and> fst (redirect sampleEnv sampleRequest ''promo1'' promoStore)
       = Redirect 302 ''https://example.com''"
proof -
  have t: "now sampleEnv = expiryAt (sampleLink ''promo1'' ''https://example.com'' 2000000)"
    by (simp add: sampleEnv_def sampleLink_def)
  have u: "originalUrl (sampleLink ''promo1'' ''https://example.com'' 2000000) = ''https://example.com''"
    by (simp add: sampleLink_def)
  show ?thesis
    using expired_exactly_when_now_after_expiry
        [OF sample_not_reserved sample_no_fault sample_find, of sampleRequest]
      sample_not_reserved sample_no_fault sample_find t u
    by simp
qed

text \<open>
  Claim C8. A redirect request on a stored shortcode (not a reserved name, lookup
  answered) whose \<open>expiryAt\<close> is in the past is answered 410 \<^verbatim>\<open>shortcode expired\<close>; the
  handler issues no write, so the store after the request is the store before it: no
  click event is added and no field of any stored link changes.
\<close>

theorem expired_redirect_is_gone_and_writes_nothing:
  assumes "toLowerCase sc \<notin> RESERVED_SHORTCODES"
    and "\<not> fault e 0"
    and "find (\<lambda>d. shortcode d = sc) (shorturls st) = Some doc"
    and "expiryAt doc < now e"
  shows "redirect e req sc st = (Json 410 (ErrorBody ''shortcode expired''), st)
       \<and> snd (redirectOps e req sc st) = []"
  using assms(4) by (simp add: redirect_def redirectOps_stored [OF assms(1-3)])

theorem expired_redirect_is_gone_and_writes_nothing_witness:
  "toLowerCase ''promo1'' \<notin> RESERVED_SHORTCODES
   \<and> \<not> fault laterEnv 0
   \<and> find (\<lambda>d. shortcode d = ''promo1'') (shorturls promoStore)
       = Some (sampleLink ''promo1'' ''https://example.com'' 2000000)
   \<and> expiryAt (sampleLink ''promo1'' ''https://example.com'' 2000000) < now laterEnv
   \<and> redirect laterEnv sampleRequest ''promo1'' promoStore
       = (Json 410 (ErrorBody ''shortcode expired''), promoStore)
   \<and> snd (redirectOps laterEnv sampleRequest ''promo1'' promoStore) = []"
proof -
  have f: "\<not> fault laterEnv 0"
    by (simp add: laterEnv_def sampleEnv_def)
  have t: "expiryAt (sampleLink ''promo1'' ''https://example.com'' 2000000) < now laterEnv"
    by (simp add: laterEnv_def sampleLink_def)
  show ?thesis
    using expired_redirect_is_gone_and_writes_nothing
        [OF sample_not_reserved f sample_find t, of sampleRequest]
      sample_not_reserved f sample_find t
    by simp
qed

section \<open>The click counter never runs ahead of the event log\<close>

lemma clickEvents_saveClick:
  "clickEvents (applyWrite st (SaveClick cl)) s =
     clickEvents st s + (if click_shortcode cl = s then 1 else 0)"
  by (simp add: clickEvents_def)

lemma shorturls_saveClick: "shorturls (applyWrite st (SaveClick cl)) = shorturls st"
  by simp

lemma clickEvents_inc: "clickEvents (applyWrite st (IncClicksCount sc)) s = clickEvents st s"
  by (simp add: clickEvents_def)

lemma incClicksCount_bound:
  "list_all (\<lambda>d. clicksCount d + (if shortcode d = sc then 1 else 0) \<le> f (shortcode d)) ds
     \<Longrightarrow> list_all (\<lambda>d. clicksCount d \<le> f (shortcode d)) (incClicksCount sc ds)"
proof (induction ds)
  case Nil
  show ?case by simp
next
  case (Cons d ds)
  have hd: "clicksCount d + (if shortcode d = sc then 1 else 0) \<le> f (shortcode d)"
    and tl: "list_all (\<lambda>d. clicksCount d + (if shortcode d = sc then 1 else 0) \<le> f (shortcode d)) ds"
    using Cons.prems by simp_all
  show ?case
  proof (cases "shortcode d = sc")
    case True
    have "list_all (\<lambda>d. clicksCount d \<le> f (shortcode d)) ds"
    proof (rule list.pred_mono_strong [OF tl])
      fix z assume "clicksCount z + (if shortcode z = sc then 1 else 0) \<le> f (shortcode z)"
      then show "clicksCount z \<le> f (shortcode z)" by (simp split: if_splits)
    qed
    then show ?thesis using True hd by simp
  next
    case False
    then show ?thesis using hd Cons.IH [OF tl] by simp
  qed
qed


lemma neverOverCounted_saveClick:
  assumes "neverOverCounted st"
  shows "neverOverCounted (applyWrite st (SaveClick cl))"
proof -
  have a: "list_all (\<lambda>d. clicksCount d \<le> clickEvents st (shortcode d)) (shorturls st)"
    using assms by (simp add: neverOverCounted_def)
  have "list_all (\<lambda>d. clicksCount d \<le> clickEvents (applyWrite st (SaveClick cl)) (shortcode d))
          (shorturls st)"
  proof (rule list.pred_mono_strong [OF a])
    fix z assume "clicksCount z \<le> clickEvents st (shortcode z)"
    then show "clicksCount z \<le> clickEvents (applyWrite st (SaveClick cl)) (shortcode z)"
      by (simp add: clickEvents_saveClick del: applyWrite.simps)
  qed
  then show ?thesis
    by (simp only: neverOverCounted_def shorturls_saveClick)
qed

lemma neverOverCounted_save_then_inc:
  assumes "neverOverCounted st" and "click_shortcode cl = sc"
  shows "neverOverCounted (applyWrite (applyWrite st (SaveClick cl)) (IncClicksCount sc))"
proof -
  let ?st1 = "applyWrite st (SaveClick cl)"
  have a: "list_all (\<lambda>d. clicksCount d \<le> clickEvents st (shortcode d)) (shorturls st)"
    using assms(1) by (simp add: neverOverCounted_def)
  have "list_all (\<lambda>d. clicksCount d + (if shortcode d = sc then 1 else 0)
                        \<le> clickEvents ?st1 (shortcode d)) (shorturls st)"
  proof (rule list.pred_mono_strong [OF a])
    fix z assume "clicksCount z \<le> clickEvents st (shortcode z)"
    then show "clicksCount z + (if shortcode z = sc then 1 else 0)
                 \<le> clickEvents ?st1 (shortcode z)"
      using assms(2)
      by (cases "shortcode z = sc") (simp_all add: clickEvents_saveClick del: applyWrite.simps)
  qed
  then have "list_all (\<lambda>d. clicksCount d \<le> clickEvents ?st1 (shortcode d))
               (incClicksCount sc (shorturls st))"
    by (rule incClicksCount_bound)
  then show ?thesis
    by (simp add: neverOverCounted_def clickEvents_def)
qed

lemma redirectOps_writes:
  "snd (redirectOps e req sc st) = []
   \<or> snd (redirectOps e req sc st) = [SaveClick (newClick e req sc)]
   \<or> snd (redirectOps e req sc st) = [SaveClick (newClick e req sc), IncClicksCount sc]"
  by (simp add: redirectOps_def findOne_def saveClick_def updateOne_def
      split: option.splits)

lemma redirectOps_redirect:
  "fst (redirectOps e req sc st) = Redirect 302 u
     \<Longrightarrow> snd (redirectOps e req sc st) = [SaveClick (newClick e req sc), IncClicksCount sc]"
  by (auto simp: redirectOps_def findOne_def saveClick_def updateOne_def notFound_def
      internalError_def split: option.splits if_splits)

text \<open>
  Claim C7. The writes of the redirect handler are, in this order, the insert of the
  click event and the increment of \<open>clicksCount\<close>: what the handler has written at any
  point is a prefix of that list, and on every redirect it is the whole list. Starting
  from a store in which no link counts more clicks than the log holds events for its
  shortcode, the same holds after every prefix of the writes, so at each intermediate
  point, and in the store the handler leaves behind, also when the increment fails or
  never happens: the counter may be behind the log, never ahead of it.
\<close>

theorem click_event_precedes_counter_increment:
  assumes "neverOverCounted st"
  shows "(\<exists>k. snd (redirectOps e req sc st)
              = take k [SaveClick (newClick e req sc), IncClicksCount sc])
       \<and> (\<forall>u. fst (redirectOps e req sc st) = Redirect 302 u
              \<longrightarrow> snd (redirectOps e req sc st)
                    = [SaveClick (newClick e req sc), IncClicksCount sc])
       \<and> (\<forall>k. neverOverCounted
                (foldl applyWrite st (take k [SaveClick (newClick e req sc), IncClicksCount sc])))
       \<and> neverOverCounted (snd (redirect e req sc st))"
proof -
  let ?w1 = "SaveClick (newClick e req sc)"
  let ?w2 = "IncClicksCount sc"
  have prefix: "\<exists>k. snd (redirectOps e req sc st) = take k [?w1, ?w2]"
  proof -
    have "[] = take 0 [?w1, ?w2]" "[?w1] = take 1 [?w1, ?w2]" "[?w1, ?w2] = take 2 [?w1, ?w2]"
      by simp_all
    then show ?thesis
      using redirectOps_writes [of e req sc st] by metis
  qed
  have sc: "click_shortcode (newClick e req sc) = sc"
    by (simp add: newClick_def)
  have one: "neverOverCounted (applyWrite st ?w1)"
    using assms by (rule neverOverCounted_saveClick)
  have two: "neverOverCounted (applyWrite (applyWrite st ?w1) ?w2)"
    using assms sc by (rule neverOverCounted_save_then_inc)
  have every: "neverOverCounted (foldl applyWrite st (take k [?w1, ?w2]))" for k
  proof -
    consider "k = 0" | "k = 1" | "2 \<le> k" by linarith
    then show ?thesis
    proof cases
      case 1
      then show ?thesis using assms by simp
    next
      case 2
      then show ?thesis using one by simp
    next
      case 3
      then show ?thesis using two by simp
    qed
  qed
  have final: "neverOverCounted (snd (redirect e req sc st))"
  proof -
    obtain k where "snd (redirectOps e req sc st) = take k [?w1, ?w2]"
      using prefix by blast
    then have "snd (redirect e req sc st) = foldl applyWrite st (take k [?w1, ?w2])"
      by (cases "redirectOps e req sc st") (simp add: redirect_def)
    then show ?thesis using every by simp
  qed
  show ?thesis
    using prefix every final redirectOps_redirect [of e req sc st] by blast
qed


theorem click_event_precedes_counter_increment_witness:
  "neverOverCounted promoStore
   \<and> redirectOps sampleEnv sampleRequest ''promo1'' promoStore
       = (Redirect 302 ''https://example.com'',
          [SaveClick (newClick sampleEnv sampleRequest ''promo1''), IncClicksCount ''promo1''])
   \<and> neverOverCounted
        (applyWrite promoStore (SaveClick (newClick sampleEnv sampleRequest ''promo1'')))
   \<and> neverOverCounted (snd (redirect sampleEnv sampleRequest ''promo1'' promoStore))"
proof -
  let ?w1 = "SaveClick (newClick sampleEnv sampleRequest ''promo1'')"
  let ?w2 = "IncClicksCount ''promo1''"
  have inv: "neverOverCounted promoStore"
    by (simp add: neverOverCounted_def promoStore_def clickEvents_def sampleLink_def)
  note all = click_event_precedes_counter_increment
    [OF inv, of sampleEnv sampleRequest "''promo1''"]
  have r: "fst (redirectOps sampleEnv sampleRequest ''promo1'' promoStore)
             = Redirect 302 ''https://example.com''"
    by (simp add: redirectOps_stored [OF sample_not_reserved sample_no_fault sample_find]
        sample_no_fault)
      (simp add: sampleEnv_def sampleLink_def)
  from all r have ws: "snd (redirectOps sampleEnv sampleRequest ''promo1'' promoStore) = [?w1, ?w2]"
    by blast
  from all have "neverOverCounted (foldl applyWrite promoStore (take 1 [?w1, ?w2]))"
    by blast
  then have mid: "neverOverCounted (applyWrite promoStore ?w1)"
    by simp
  from all have fin: "neverOverCounted (snd (redirect sampleEnv sampleRequest ''promo1'' promoStore))"
    by blast
  show ?thesis
    using inv r ws mid fin by (simp add: prod_eq_iff)
qed

section \<open>The stats handler\<close>

text \<open>
  Claim C10. The stats handler has no expiry check. With both reads answered, it
  returns the full record (shortcode, original URL, creation and expiry times, click
  total, and the clicks newest first) for every stored shortcode, whatever the clock
  says, and it answers 404 \<^verbatim>\<open>shortcode not found\<close> exactly when no link has that shortcode.
\<close>

theorem stats_has_no_expiry_check:
  assumes "\<not> fault e 0" and "\<not> fault e 1"
  shows "(\<forall>doc. find (\<lambda>d. shortcode d = sc) (shorturls st) = Some doc \<longrightarrow>
            stats e sc st =
              Json 200 (DetailsBody
                \<lparr>d_shortcode = sc, d_originalUrl = originalUrl doc, d_createdAt = createdAt doc,
                 d_expiryAt = expiryAt doc, clicksTotal = clicksCount doc,
                 d_clicks = map clickDetails
                   (sort_key (\<lambda>cl. - clickedAt cl)
                      (filter (\<lambda>cl. click_shortcode cl = sc) (clicks st)))\<rparr>))
       \<and> ((stats e sc st = Json 404 (ErrorBody ''shortcode not found''))
            = (find (\<lambda>d. shortcode d = sc) (shorturls st) = None))
       \<and> stats (e\<lparr>now := t\<rparr>) sc st = stats e sc st"
  using assms
  by (simp add: stats_def findOne_def findClicks_def ctx0_def called_def notFound_def
      split: option.splits)

theorem stats_has_no_expiry_check_witness:
  "\<not> fault laterEnv 0 \<and> \<not> fault laterEnv 1
   \<and> expiryAt (hd (shorturls visitedStore)) < now laterEnv
   \<and> stats laterEnv ''promo1'' visitedStore =
       Json 200 (DetailsBody
         \<lparr>d_shortcode = ''promo1'', d_originalUrl = ''https://example.com'',
          d_createdAt = 200000, d_expiryAt = 2000000, clicksTotal = 2,
          d_clicks =
            [\<lparr>timestamp = 1900000, detail_referrer = Some ''https://news.example/'',
              detail_ip = ''203.0.113.9'', detail_userAgent = None, detail_geo = None\<rparr>,
             \<lparr>timestamp = 1500000, detail_referrer = None,
              detail_ip = ''203.0.113.7'', detail_userAgent = Some ''curl/8.5'',
              detail_geo = None\<rparr>]\<rparr>)
   \<and> stats laterEnv ''promo2'' visitedStore = Json 404 (ErrorBody ''shortcode not found'')"
proof -
  have f0: "\<not> fault laterEnv 0" and f1: "\<not> fault laterEnv 1"
    by (simp_all add: laterEnv_def sampleEnv_def)
  note all = stats_has_no_expiry_check [OF f0 f1]
  have x: "expiryAt (hd (shorturls visitedStore)) < now laterEnv"
    by (simp add: visitedStore_def sampleLink_def laterEnv_def)
  have s: "find (\<lambda>d. shortcode d = ''promo1'') (shorturls visitedStore)
             = Some ((sampleLink ''promo1'' ''https://example.com'' 2000000)\<lparr>clicksCount := 2\<rparr>)"
    by (simp add: visitedStore_def sampleLink_def)
  have n: "find (\<lambda>d. shortcode d = ''promo2'') (shorturls visitedStore) = None"
    by (simp add: visitedStore_def sampleLink_def)
  have a: "stats laterEnv ''promo1'' visitedStore =
       Json 200 (DetailsBody
         \<lparr>d_shortcode = ''promo1'', d_originalUrl = ''https://example.com'',
          d_createdAt = 200000, d_expiryAt = 2000000, clicksTotal = 2,
          d_clicks =
            [\<lparr>timestamp = 1900000, detail_referrer = Some ''https://news.example/'',
              detail_ip = ''203.0.113.9'', detail_userAgent = None, detail_geo = None\<rparr>,
             \<lparr>timestamp = 1500000, detail_referrer = None,
              detail_ip = ''203.0.113.7'', detail_userAgent = Some ''curl/8.5'',
              detail_geo = None\<rparr>]\<rparr>)"
    using all [of "''promo1''" visitedStore] s
    by (simp add: visitedStore_def sampleLink_def clickDetails_def)
  have b: "stats laterEnv ''promo2'' visitedStore = Json 404 (ErrorBody ''shortcode not found'')"
    using all [of "''promo2''" visitedStore] n by simp
  show ?thesis using f0 f1 x a b by simp
qed

section \<open>Creating a link with a desired shortcode\<close>

lemma find_snoc:
  "find P (xs @ [d]) = (case find P xs of Some x \<Rightarrow> Some x | None \<Rightarrow> if P d then Some d else None)"
  by (induction xs) auto

lemma shortcodeChar_not_space: "shortcodeChar c \<Longrightarrow> \<not> isWhiteSpace c"
  by (auto simp: shortcodeChar_def isWhiteSpace_def Let_def)

lemma normalizeShortcode_trimmed:
  assumes "normalizeShortcode (Some s) = Some n"
  shows "trim n = n \<and> n \<noteq> []"
proof -
  from assms have a: "list_all shortcodeChar n" and l: "3 \<le> length n"
    by (auto simp: normalizeShortcode_def Let_def split: if_splits)
  have "list_all (\<lambda>c. \<not> isWhiteSpace c) n"
    by (rule list.pred_mono_strong [OF a]) (rule shortcodeChar_not_space)
  then have "trim n = n" by (rule trim_no_space)
  moreover have "n \<noteq> []" using l by auto
  ultimately show ?thesis by simp
qed

lemma find_None_shortcodes:
  "(find (\<lambda>d. shortcode d = sc) ds = None) = (sc \<notin> set (map shortcode ds))"
  by (auto simp: find_None_iff)

lemma makeUniqueShortcode_desired:
  assumes "n \<noteq> []" and "trim n = n" and "toLowerCase n \<notin> RESERVED_SHORTCODES"
    and "\<not> fault e (calls c)"
  shows "makeUniqueShortcode e st (Some n) c =
     (case find (\<lambda>d. shortcode d = n) (shorturls st) of
        Some existing \<Rightarrow> (Inl (Thrown 409 ''shortcode already exists''), called c)
      | None \<Rightarrow> (Inr n, called c))"
  using assms by (simp add: makeUniqueShortcode_def findOne_def split: option.splits)

lemma saveLoop_first_attempt:
  assumes "racing e attempt = []" and "\<not> fault e (calls c)"
    and "shortcode (mk chosen) \<notin> set (map shortcode (shorturls st))"
    and "validDate (expiryAt (mk chosen))"
  shows "saveLoop e mk (Suc n) attempt chosen st c =
     (Inr (Some (mk chosen), chosen), st\<lparr>shorturls := shorturls st @ [mk chosen]\<rparr>, called c)"
  using assms by (simp add: saveShortUrl_def insertShortUrl_def)

lemma createShortUrl_desired:
  assumes n: "normalizeShortcode (Some sc) = Some sc"
    and r: "toLowerCase sc \<notin> RESERVED_SHORTCODES"
    and u: "u \<noteq> []" "isURL e u"
    and f: "\<And>k. \<not> fault e k"
    and q: "racing e 0 = []"
    and s: "find (\<lambda>d. shortcode d = sc) (shorturls st) = None"
    and x: "validDate (now e + validMinutesOf v * 60000)"
  shows "createShortUrl e req \<lparr>url = Some u, validity = v, body_shortcode = Some sc\<rparr> st =
     (Json 201 (CreatedBody (req_base req @ ''/'' @ sc) (now e + validMinutesOf v * 60000)),
      st\<lparr>shorturls := shorturls st @ [newShortUrl e req u (validMinutesOf v) sc]\<rparr>)"
proof -
  have t: "trim sc = sc" and ne: "sc \<noteq> []"
    using normalizeShortcode_trimmed [OF n] by simp_all
  have pos: "\<not> validMinutesOf v \<le> 0"
    by (simp add: validMinutesOf_def split: number.splits)
  have alloc: "makeUniqueShortcode e st (Some sc) ctx0 = (Inr sc, called ctx0)"
    using makeUniqueShortcode_desired [OF ne t r f] s by simp
  have fresh: "shortcode (newShortUrl e req u (validMinutesOf v) sc)
                 \<notin> set (map shortcode (shorturls st))"
    using s by (simp add: newShortUrl_def find_None_shortcodes)
  have valid: "validDate (expiryAt (newShortUrl e req u (validMinutesOf v) sc))"
    using x by (simp add: newShortUrl_def)
  have five: "(5::nat) = Suc 4" by simp
  have save: "saveLoop e (newShortUrl e req u (validMinutesOf v)) 5 0 sc st (called ctx0) =
     (Inr (Some (newShortUrl e req u (validMinutesOf v) sc), sc),
      st\<lparr>shorturls := shorturls st @ [newShortUrl e req u (validMinutesOf v) sc]\<rparr>,
      called (called ctx0))"
    unfolding five using q f fresh valid by (rule saveLoop_first_attempt)
  have "saveAndRespond e req u (validMinutesOf v) sc st (called ctx0) =
     (Json 201 (CreatedBody (req_base req @ ''/'' @ sc) (now e + validMinutesOf v * 60000)),
      st\<lparr>shorturls := shorturls st @ [newShortUrl e req u (validMinutesOf v) sc]\<rparr>)"
    by (simp add: saveAndRespond_def save)
  then show ?thesis
    using u pos ne n alloc by (simp add: createShortUrl_def Let_def)
qed

text \<open>
  Past the last valid date the expiry is an Invalid Date: the save is rejected, the loop
  ends without a saved document, and the request is answered 500 with nothing stored.
\<close>

lemma createShortUrl_invalid_date:
  "\<not> validDate (now sampleEnv + validMinutesOf (validity farFutureBody) * 60000)
   \<and> createShortUrl sampleEnv sampleRequest farFutureBody promoStore
       = (Json 500 (ErrorBody ''internal server error''), promoStore)"
  by code_simp

text \<open>
  Claim C9. The existence check, the unique index and the lookup compare shortcodes as
  they are; only the reserved-name check lower-cases. So a well-formed shortcode \<open>sc\<close>
  that is not a reserved name and that no link has is created although a link \<open>sc'\<close>
  with the same lower-cased form is stored, and afterwards each of the two resolves to
  its own link: \<open>sc'\<close> to the URL of the older link, \<open>sc\<close> to the URL just stored
  (or the 410 response, each by its own expiry). Storage calls are answered, no other
  request stores \<open>sc\<close> in between, and the expiry of the new link is a valid date.
\<close>

theorem shortcodes_match_case_sensitively:
  assumes n: "normalizeShortcode (Some sc) = Some sc"
    and r: "toLowerCase sc \<notin> RESERVED_SHORTCODES"
    and u: "u \<noteq> []" "isURL e u"
    and f: "\<And>k. \<not> fault e k"
    and q: "racing e 0 = []"
    and other: "find (\<lambda>d. shortcode d = sc') (shorturls st) = Some doc'"
    and same: "toLowerCase sc' = toLowerCase sc"
    and s: "find (\<lambda>d. shortcode d = sc) (shorturls st) = None"
    and x: "validDate (now e + validMinutesOf v * 60000)"
    and f': "\<And>k. \<not> fault e' k"
  shows "(let new = newShortUrl e req u (validMinutesOf v) sc;
              st' = st\<lparr>shorturls := shorturls st @ [new]\<rparr>
          in createShortUrl e req \<lparr>url = Some u, validity = v, body_shortcode = Some sc\<rparr> st
               = (Json 201 (CreatedBody (req_base req @ ''/'' @ sc) (expiryAt new)), st')
           \<and> fst (redirect e' req' sc' st')
               = (if expiryAt doc' < now e' then Json 410 (ErrorBody ''shortcode expired'')
                  else Redirect 302 (originalUrl doc'))
           \<and> fst (redirect e' req' sc st')
               = (if expiryAt new < now e' then Json 410 (ErrorBody ''shortcode expired'')
                  else Redirect 302 u))"
proof -
  let ?new = "newShortUrl e req u (validMinutesOf v) sc"
  let ?st' = "st\<lparr>shorturls := shorturls st @ [?new]\<rparr>"
  have created: "createShortUrl e req \<lparr>url = Some u, validity = v, body_shortcode = Some sc\<rparr> st
       = (Json 201 (CreatedBody (req_base req @ ''/'' @ sc) (expiryAt ?new)), ?st')"
    using createShortUrl_desired [OF n r u f q s x, of req] by (simp add: newShortUrl_def)
  have r': "toLowerCase sc' \<notin> RESERVED_SHORTCODES"
    using r same by simp
  have old: "find (\<lambda>d. shortcode d = sc') (shorturls ?st') = Some doc'"
    using other by (simp add: find_snoc)
  have new: "find (\<lambda>d. shortcode d = sc) (shorturls ?st') = Some ?new"
    using s by (simp add: find_snoc newShortUrl_def)
  have a: "fst (redirect e' req' sc' ?st')
       = (if expiryAt doc' < now e' then Json 410 (ErrorBody ''shortcode expired'')
          else Redirect 302 (originalUrl doc'))"
    using f' by (simp add: redirect_def redirectOps_stored [OF r' f' old])
  have b: "fst (redirect e' req' sc ?st')
       = (if expiryAt ?new < now e' then Json 410 (ErrorBody ''shortcode expired'')
          else Redirect 302 (originalUrl ?new))"
    using f' by (simp add: redirect_def redirectOps_stored [OF r f' new])
  have "originalUrl ?new = u"
    by (simp add: newShortUrl_def)
  with created a b show ?thesis
    by (simp add: Let_def)
qed

theorem shortcodes_match_case_sensitively_witness:
  "normalizeShortcode (Some ''Promo1'') = Some ''Promo1''
   \<and> toLowerCase ''Promo1'' \<notin> RESERVED_SHORTCODES
   \<and> isURL sampleEnv ''https://example.net''
   \<and> (\<forall>k. \<not> fault sampleEnv k) \<and> racing sampleEnv 0 = []
   \<and> find (\<lambda>d. shortcode d = ''promo1'') (shorturls promoStore)
       = Some (sampleLink ''promo1'' ''https://example.com'' 2000000)
   \<and> toLowerCase ''promo1'' = toLowerCase ''Promo1''
   \<and> find (\<lambda>d. shortcode d = ''Promo1'') (shorturls promoStore) = None
   \<and> validDate (now sampleEnv + validMinutesOf None * 60000)
   \<and> createShortUrl sampleEnv sampleRequest upperBody promoStore
       = (Json 201 (CreatedBody ''http://localhost:4000/Promo1'' 3800000), twoCaseStore)
   \<and> fst (redirect sampleEnv sampleRequest ''promo1'' twoCaseStore)
       = Redirect 302 ''https://example.com''
   \<and> fst (redirect sampleEnv sampleRequest ''Promo1'' twoCaseStore)
       = Redirect 302 ''https://example.net''"
proof -
  have n: "normalizeShortcode (Some ''Promo1'') = Some ''Promo1''"
    by code_simp
  have r: "toLowerCase ''Promo1'' \<notin> RESERVED_SHORTCODES"
    by code_simp
  have u: "''https://example.net'' \<noteq> []" "isURL sampleEnv ''https://example.net''"
    by (simp_all add: sampleEnv_def)
  have q: "racing sampleEnv 0 = []"
    by (simp add: sampleEnv_def)
  have same: "toLowerCase ''promo1'' = toLowerCase ''Promo1''"
    by code_simp
  have s: "find (\<lambda>d. shortcode d = ''Promo1'') (shorturls promoStore) = None"
    by (simp add: promoStore_def sampleLink_def)
  have v: "validDate (now sampleEnv + validMinutesOf None * 60000)"
    by (simp add: validDate_def sampleEnv_def validMinutesOf_def toNumber_def)
  note all = shortcodes_match_case_sensitively
    [OF n r u sample_no_fault q sample_find same s v sample_no_fault,
     of sampleRequest sampleRequest]
  have st: "promoStore\<lparr>shorturls := shorturls promoStore
              @ [newShortUrl sampleEnv sampleRequest ''https://example.net'' (validMinutesOf None)
                   ''Promo1'']\<rparr> = twoCaseStore"
    by (simp add: promoStore_def twoCaseStore_def validMinutesOf_def toNumber_def)
  have x: "expiryAt (newShortUrl sampleEnv sampleRequest ''https://example.net''
             (validMinutesOf None) ''Promo1'') = 3800000"
    by (simp add: newShortUrl_def sampleEnv_def validMinutesOf_def toNumber_def)
  have y: "expiryAt (sampleLink ''promo1'' ''https://example.com'' 2000000) = 2000000"
      "originalUrl (sampleLink ''promo1'' ''https://example.com'' 2000000) = ''https://example.com''"
      "now sampleEnv = 2000000" "req_base sampleRequest = ''http://localhost:4000''"
    by (simp_all add: sampleLink_def sampleEnv_def sampleRequest_def)
  from all have
    "createShortUrl sampleEnv sampleRequest upperBody promoStore
       = (Json 201 (CreatedBody ''http://localhost:4000/Promo1'' 3800000), twoCaseStore)
     \<and> fst (redirect sampleEnv sampleRequest ''promo1'' twoCaseStore)
       = Redirect 302 ''https://example.com''
     \<and> fst (redirect sampleEnv sampleRequest ''Promo1'' twoCaseStore)
       = Redirect 302 ''https://example.net''"
    unfolding Let_def st x y upperBody_def by simp
  then show ?thesis
    using n r u sample_no_fault q sample_find same s v by simp
qed

section \<open>Where the code departs from the specification\<close>

text \<open>
  Claim C2. A request asks for the shortcode \<open>promo1\<close>. The existence check finds
  nothing; another request stores \<open>promo1\<close> before the insert; the insert fails with the
  duplicate-key error. The save loop then calls \<^verbatim>\<open>makeUniqueShortcode(null)\<close> and saves
  under the generated code: the caller is answered 201 with the short link \<open>AAAAAA\<close>, not
  with the 409 \<^verbatim>\<open>shortcode already exists\<close> that the existence check gives for a shortcode
  that is taken.
\<close>

theorem desired_shortcode_replaced_after_duplicate_key:
  "fst (makeUniqueShortcode raceEnv emptyStore (Some ''promo1'') ctx0) = Inr ''promo1''
   \<and> insertShortUrl (newShortUrl raceEnv sampleRequest ''https://example.com'' 30 ''promo1'')
        (commitRacing (racing raceEnv 0) emptyStore) = Inl DuplicateKey
   \<and> createShortUrl raceEnv sampleRequest promoBody emptyStore
       = (Json 201 (CreatedBody ''http://localhost:4000/AAAAAA'' 3800000),
          \<lparr>shorturls =
             [sampleLink ''promo1'' ''https://other.example'' 3000000,
              newShortUrl sampleEnv sampleRequest ''https://example.com'' 30 ''AAAAAA''],
           clicks = []\<rparr>)"
  by code_simp

text \<open>
  Claim C5. \<open>validMinutes\<close> is positive whatever the \<open>validity\<close> field holds, because a
  value that is not a positive integer is replaced by 30 on the line before the test
  \<^verbatim>\<open>validMinutes <= 0\<close>, so the test that guards the 400 response
  \<^verbatim>\<open>validity must be a positive integer (minutes)\<close> never succeeds. A request with
  \<open>validity = -5\<close> is answered 201 and the link is stored with a validity of 30 minutes.
\<close>

theorem non_positive_validity_gets_the_default:
  "0 < validMinutesOf v
   \<and> validMinutesOf (Some (Integer (- 5))) = 30
   \<and> createShortUrl sampleEnv sampleRequest negativeValidityBody emptyStore
       = (Json 201 (CreatedBody ''http://localhost:4000/AAAAAA'' 3800000),
          \<lparr>shorturls = [newShortUrl sampleEnv sampleRequest ''https://example.com'' 30 ''AAAAAA''],
           clicks = []\<rparr>)"
proof -
  have a: "0 < validMinutesOf v"
    by (simp add: validMinutesOf_def split: number.splits)
  have b: "validMinutesOf (Some (Integer (- 5))) = 30"
    by (simp add: validMinutesOf_def toNumber_def)
  have c: "createShortUrl sampleEnv sampleRequest negativeValidityBody emptyStore
       = (Json 201 (CreatedBody ''http://localhost:4000/AAAAAA'' 3800000),
          \<lparr>shorturls = [newShortUrl sampleEnv sampleRequest ''https://example.com'' 30 ''AAAAAA''],
           clicks = []\<rparr>)"
    by code_simp
  from a b c show ?thesis by simp
qed

end
